theory Spec2Isabelle
  imports
    Main
    "HOL-Library.Sublist"
    "HOL-Library.Log_Nat"
    "HOL-Library.Char_ord"
    "HOL-Library.List_Lexorder"
    "HOL-Library.Product_Lexorder"
begin

section \<open>Python values and exceptions\<close>

text \<open>
  The program is \<^verbatim>\<open>src/api.py\<close>: a loader of article rows from a CSV file, a
  similarity scorer, a ranker and two search endpoints.

  An article is a Python \<^verbatim>\<open>dict\<close> as \<^verbatim>\<open>csv.DictReader\<close> yields it: the
  keys are column names, a value is a \<^verbatim>\<open>str\<close>, or \<^verbatim>\<open>None\<close> where the row
  was shorter than the header, or (for \<^verbatim>\<open>claps\<close>, once the loader has coerced it) an
  \<^verbatim>\<open>int\<close>. A \<^verbatim>\<open>str\<close> is a list of code points below 256: \<open>char\<close> is read as
  a Latin-1 code point, and code points above U+00FF are outside the model.
\<close>

datatype pyval = PNone | PStr string | PInt int

datatype error = TypeError | ValueError | AttributeError | OtherError string

type_synonym article = "string \<rightharpoonup> pyval"

text \<open>\<^verbatim>\<open>d.get(key, default)\<close>\<close>

definition dict_get :: "article \<Rightarrow> string \<Rightarrow> pyval \<Rightarrow> pyval" where
  "dict_get d k dflt = (case d k of None \<Rightarrow> dflt | Some v \<Rightarrow> v)"

text \<open>Truthiness, and \<^verbatim>\<open>a or b\<close>.\<close>

fun truthy :: "pyval \<Rightarrow> bool" where
  "truthy PNone = False"
| "truthy (PStr s) = (s \<noteq> [])"
| "truthy (PInt n) = (n \<noteq> 0)"

definition py_or :: "pyval \<Rightarrow> pyval \<Rightarrow> pyval" where
  "py_or a b = (if truthy a then a else b)"

section \<open>Characters and strings\<close>

definition code_point :: "char \<Rightarrow> nat" where
  "code_point c = of_char c"

text \<open>The class \<^verbatim>\<open>[a-zA-Z]\<close> of the pattern.\<close>

definition is_ascii_alpha :: "char \<Rightarrow> bool" where
  "is_ascii_alpha c =
     (let n = code_point c in (65 \<le> n \<and> n \<le> 90) \<or> (97 \<le> n \<and> n \<le> 122))"

text \<open>
  The class \<^verbatim>\<open>\w\<close> of Python's \<^verbatim>\<open>re\<close> on \<^verbatim>\<open>str\<close> patterns, which decides
  where \<^verbatim>\<open>\b\<close> matches: alphanumeric code points and the underscore. Below 256
  these are the digits, the ASCII letters, \<^verbatim>\<open>_\<close>, and the Latin-1 letters and
  numeric signs.
\<close>

definition is_word_char :: "char \<Rightarrow> bool" where
  "is_word_char c =
     (let n = code_point c in
        (48 \<le> n \<and> n \<le> 57) \<or> (65 \<le> n \<and> n \<le> 90) \<or> n = 95 \<or> (97 \<le> n \<and> n \<le> 122)
        \<or> n = 170 \<or> n = 178 \<or> n = 179 \<or> n = 181 \<or> n = 185 \<or> n = 186
        \<or> (188 \<le> n \<and> n \<le> 190) \<or> (192 \<le> n \<and> n \<le> 214) \<or> (216 \<le> n \<and> n \<le> 246)
        \<or> (248 \<le> n \<and> n \<le> 255))"

text \<open>\<^verbatim>\<open>str.lower()\<close>, one code point at a time.\<close>

definition lower_char :: "char \<Rightarrow> char" where
  "lower_char c =
     (let n = code_point c in
        if (65 \<le> n \<and> n \<le> 90) \<or> (192 \<le> n \<and> n \<le> 222 \<and> n \<noteq> 215)
        then char_of (n + 32) else c)"

definition lower :: "string \<Rightarrow> string" where
  "lower s = map lower_char s"

text \<open>The white space that \<^verbatim>\<open>str.strip()\<close> removes.\<close>

definition is_space :: "char \<Rightarrow> bool" where
  "is_space c =
     (let n = code_point c in
        (9 \<le> n \<and> n \<le> 13) \<or> (28 \<le> n \<and> n \<le> 32) \<or> n = 133 \<or> n = 160)"

definition strip :: "string \<Rightarrow> string" where
  "strip s = rev (dropWhile is_space (rev (dropWhile is_space s)))"

text \<open>\<^verbatim>\<open>w in s\<close> on strings: \<open>w\<close> occurs in \<open>s\<close> as a contiguous substring.\<close>

definition str_contains :: "string \<Rightarrow> string \<Rightarrow> bool" where
  "str_contains s w = list_ex (prefix w) (suffixes s)"

section \<open>The tokenizer\<close>

text \<open>
  \<^verbatim>\<open>re.findall(r'\b[a-zA-Z]{3,}\b', s)\<close>: the matches of the pattern from left to
  right, each search starting where the last match ended. \<open>prev\<close> says whether the
  code point before the current position is a word character (\<open>False\<close> at the start
  of the string). A match starts at the current position when \<^verbatim>\<open>\b\<close> holds there
  (the code point before is not a word character, the current one is a letter), the
  greedy run of letters has length at least 3, and \<^verbatim>\<open>\b\<close> holds after the run
  (the string ends or a non-word character follows). A shorter prefix of the run never
  ends at a \<^verbatim>\<open>\b\<close>, since a letter follows it. Otherwise the search moves on by one
  code point.
\<close>

function findall_words :: "bool \<Rightarrow> string \<Rightarrow> string list" where
  "findall_words prev [] = []"
| "findall_words prev (c # cs) =
     (if \<not> prev \<and> 3 \<le> length (takeWhile is_ascii_alpha (c # cs))
         \<and> (case dropWhile is_ascii_alpha (c # cs) of [] \<Rightarrow> True | d # _ \<Rightarrow> \<not> is_word_char d)
      then takeWhile is_ascii_alpha (c # cs)
             # findall_words True (dropWhile is_ascii_alpha (c # cs))
      else findall_words (is_word_char c) cs)"
  by pat_completeness auto
termination
proof (relation "measure (\<lambda>(prev, s). length s)")
  show "wf (measure (\<lambda>(prev, s). length s))" by simp
next
  fix prev :: bool and c :: char and cs :: string
  assume a: "\<not> prev \<and> 3 \<le> length (takeWhile is_ascii_alpha (c # cs))
         \<and> (case dropWhile is_ascii_alpha (c # cs) of [] \<Rightarrow> True | d # _ \<Rightarrow> \<not> is_word_char d)"
  have "length (takeWhile is_ascii_alpha (c # cs)) + length (dropWhile is_ascii_alpha (c # cs))
          = length (c # cs)"
    by (metis length_append takeWhile_dropWhile_id)
  with a show "((True, dropWhile is_ascii_alpha (c # cs)), (prev, c # cs))
                 \<in> measure (\<lambda>(prev, s). length s)"
    by simp
next
  fix prev :: bool and c :: char and cs :: string
  show "((is_word_char c, cs), (prev, c # cs)) \<in> measure (\<lambda>(prev, s). length s)"
    by simp
qed

text \<open>\<^verbatim>\<open>set(re.findall(r'\b[a-zA-Z]{3,}\b', s.lower()))\<close>\<close>

definition tokens :: "string \<Rightarrow> string set" where
  "tokens s = set (findall_words False (lower s))"

text \<open>
  The maximal runs of code points that satisfy \<open>p\<close>, from left to right.
\<close>

function runs :: "(char \<Rightarrow> bool) \<Rightarrow> string \<Rightarrow> string list" where
  "runs p [] = []"
| "runs p (c # cs) =
     (if p c then takeWhile p (c # cs) # runs p (dropWhile p cs) else runs p cs)"
  by pat_completeness auto
termination
  by (relation "measure (\<lambda>(p, s). length s)") (auto simp: length_dropWhile_le less_Suc_eq_le)

text \<open>
  The token set as the specification words it: the lowercased maximal runs of
  alphabetic characters of length at least 3, whatever stands next to a run.
\<close>

definition spec_tokens :: "string \<Rightarrow> string set" where
  "spec_tokens s = set (filter (\<lambda>w. 3 \<le> length w) (runs is_ascii_alpha (lower s)))"

text \<open>
  The token set in terms of words: the maximal runs of word characters (letters,
  digits, underscore) of the lowercased string that are at least 3 long and made of
  ASCII letters only.
\<close>

definition word_tokens :: "string \<Rightarrow> string set" where
  "word_tokens s =
     set (filter (\<lambda>w. 3 \<le> length w \<and> list_all is_ascii_alpha w)
            (runs is_word_char (lower s)))"

section \<open>Floating point\<close>

text \<open>
  A Python \<^verbatim>\<open>float\<close> is an IEEE binary64 number; it is modelled by the rational it
  denotes. Every arithmetic operation yields the exact result rounded to the nearest
  number with 53 significant bits, ties to even (\<open>fl\<close>). The exponent range is not
  modelled: the operands here are counts of words, their quotients and multiples of
  \<^verbatim>\<open>0.1\<close>, far from overflow and underflow.
\<close>

definition round_half_even :: "rat \<Rightarrow> int" where
  "round_half_even x =
     (let f = \<lfloor>x\<rfloor>; d = x - of_int f in
        if d < 1 / 2 then f else if 1 / 2 < d then f + 1 else if even f then f else f + 1)"

text \<open>The exponent \<open>e\<close> with \<open>2 ^ e \<le> x < 2 ^ (e + 1)\<close>, for positive \<open>x\<close>.\<close>

definition ilog2 :: "rat \<Rightarrow> int" where
  "ilog2 x =
     (let (p, q) = quotient_of x; e = bitlen p - bitlen q in
        if 2 powi e \<le> x then e else e - 1)"

definition fl :: "rat \<Rightarrow> rat" where
  "fl x =
     (if x = 0 then 0
      else let a = \<bar>x\<bar>; e = ilog2 a in
        sgn x * of_int (round_half_even (a * 2 powi (52 - e))) * 2 powi (e - 52))"

text \<open>\<^verbatim>\<open>a / b\<close> on two \<^verbatim>\<open>int\<close>s (true division, correctly rounded), for \<open>b \<noteq> 0\<close>.\<close>

definition float_div :: "nat \<Rightarrow> nat \<Rightarrow> rat" where
  "float_div a b = fl (of_nat a / of_nat b)"

text \<open>\<^verbatim>\<open>k * x\<close> with an \<^verbatim>\<open>int\<close> \<open>k\<close> and a \<^verbatim>\<open>float\<close> \<open>x\<close>: \<open>k\<close> is converted first.\<close>

definition float_mul_int :: "nat \<Rightarrow> rat \<Rightarrow> rat" where
  "float_mul_int k x = fl (fl (of_nat k) * x)"

definition float_add :: "rat \<Rightarrow> rat \<Rightarrow> rat" where
  "float_add x y = fl (x + y)"

text \<open>The literals \<^verbatim>\<open>0.1\<close> and \<^verbatim>\<open>1.0\<close>.\<close>

definition float_0_1 :: rat where
  "float_0_1 = fl (1 / 10)"

definition float_1_0 :: rat where
  "float_1_0 = 1"

text \<open>
  \<^verbatim>\<open>round(x, 3)\<close>: the exact value of \<open>x\<close> rounded to 3 decimals, ties to even, and
  the float nearest to that decimal.
\<close>

definition py_round3 :: "rat \<Rightarrow> rat" where
  "py_round3 x = fl (of_int (round_half_even (x * 1000)) / 1000)"

section \<open>The scorer\<close>

text \<open>
  \<^verbatim>\<open>article.get(k, '')\<close> as an operand of \<^verbatim>\<open>+\<close> with a \<^verbatim>\<open>str\<close>: a value
  that is not a \<^verbatim>\<open>str\<close> (the \<^verbatim>\<open>None\<close> of a short row, an \<^verbatim>\<open>int\<close>) raises
  \<^verbatim>\<open>TypeError\<close>.
\<close>

definition str_operand :: "article \<Rightarrow> string \<Rightarrow> error + string" where
  "str_operand article k =
     (case dict_get article k (PStr []) of PStr s \<Rightarrow> Inr s | _ \<Rightarrow> Inl TypeError)"

text \<open>
  \<^verbatim>\<open>article.get('text', '') + ' ' + article.get('title', '') + ' ' +
  article.get('subtitle', '') + ' ' + article.get('keywords', '')\<close>
\<close>

definition concat_fields :: "article \<Rightarrow> error + string" where
  "concat_fields article =
     (case str_operand article ''text'' of Inl e \<Rightarrow> Inl e | Inr t \<Rightarrow>
      case str_operand article ''title'' of Inl e \<Rightarrow> Inl e | Inr ti \<Rightarrow>
      case str_operand article ''subtitle'' of Inl e \<Rightarrow> Inl e | Inr st \<Rightarrow>
      case str_operand article ''keywords'' of Inl e \<Rightarrow> Inl e | Inr kw \<Rightarrow>
        Inr (t @ '' '' @ ti @ '' '' @ st @ '' '' @ kw))"

text \<open>
  \<^verbatim>\<open>calculate_similarity(text, keywords, article)\<close>. The parameter \<open>keywords\<close> is
  not used by the body. Once the concatenation has succeeded the keywords field is a
  \<^verbatim>\<open>str\<close>, so \<^verbatim>\<open>article.get('keywords', '').lower()\<close> does not raise.
\<close>

definition calculate_similarity :: "string \<Rightarrow> pyval \<Rightarrow> article \<Rightarrow> error + rat" where
  "calculate_similarity text keywords article =
     (let input_lower = lower text;
          input_words = set (findall_words False input_lower)
      in case concat_fields article of Inl e \<Rightarrow> Inl e | Inr raw \<Rightarrow>
      case str_operand article ''keywords'' of Inl e \<Rightarrow> Inl e | Inr kw \<Rightarrow>
        let article_text = lower raw;
            article_keywords = lower kw;
            article_words = set (findall_words False article_text)
        in if input_words = {} then Inr 0
           else
             let intersection = card (input_words \<inter> article_words);
                 union = card (input_words \<union> article_words)
             in if union = 0 then Inr 0
                else
                  let similarity = float_div intersection union;
                      keyword_matches =
                        card (Set.filter (\<lambda>word. str_contains article_keywords word) input_words);
                      similarity' =
                        (if article_keywords \<noteq> [] \<and> 0 < keyword_matches
                         then float_add similarity (float_mul_int keyword_matches float_0_1)
                         else similarity)
                  in Inr (min similarity' float_1_0))"

section \<open>The ranker\<close>

text \<open>A scored candidate: the dictionary built in the scoring loop.\<close>

record scored =
  s_article :: article
  s_similarity :: rat
  s_claps :: pyval

text \<open>A result summary: the dictionary appended to \<^verbatim>\<open>results\<close>.\<close>

record summary =
  url :: pyval
  title :: pyval
  claps :: pyval
  similarity_score :: rat

text \<open>
  The scoring loop. An exception raised by \<^verbatim>\<open>calculate_similarity\<close> leaves the
  function.
\<close>

fun score_articles :: "string \<Rightarrow> article list \<Rightarrow> error + scored list" where
  "score_articles input_text [] = Inr []"
| "score_articles input_text (article # rest) =
     (case calculate_similarity input_text (dict_get article ''keywords'' (PStr [])) article of
        Inl e \<Rightarrow> Inl e
      | Inr similarity \<Rightarrow>
          (case score_articles input_text rest of
             Inl e \<Rightarrow> Inl e
           | Inr scored_articles \<Rightarrow>
               Inr (\<lparr>s_article = article, s_similarity = similarity,
                      s_claps = dict_get article ''claps'' (PInt 0)\<rparr> # scored_articles)))"

text \<open>
  \<^verbatim>\<open>similar_articles.sort(key=lambda x: (x['similarity'], x['claps']), reverse=True)\<close>.
  The keys are tuples: two keys are ordered by their similarities when these differ,
  by their claps otherwise. Two claps of the same type are ordered (integers by value,
  strings by code points, \<^verbatim>\<open>None\<close> equal to itself); two claps of different types
  are unequal and \<^verbatim>\<open>\<less>\<close> on them raises \<^verbatim>\<open>TypeError\<close>. A comparison sort has
  to compare, within every group of equal similarity, claps of both types if both occur,
  so the sort raises exactly when some two candidates have equal similarity and claps of
  different types. Otherwise the result is the stable descending sort:
  \<^verbatim>\<open>reverse=True\<close> reverses the list, sorts it stably in ascending order and
  reverses it again, which keeps candidates with equal keys in their original order.
\<close>

fun same_type :: "pyval \<Rightarrow> pyval \<Rightarrow> bool" where
  "same_type PNone PNone = True"
| "same_type (PStr a) (PStr b) = True"
| "same_type (PInt a) (PInt b) = True"
| "same_type a b = False"

fun claps_rank :: "pyval \<Rightarrow> int \<times> string" where
  "claps_rank PNone = (0, [])"
| "claps_rank (PStr s) = (0, s)"
| "claps_rank (PInt n) = (n, [])"

definition rank_key :: "scored \<Rightarrow> rat \<times> int \<times> string" where
  "rank_key x = (s_similarity x, claps_rank (s_claps x))"

definition comparable :: "scored list \<Rightarrow> bool" where
  "comparable xs =
     list_all (\<lambda>x. list_all (\<lambda>y. s_similarity x = s_similarity y
                                    \<longrightarrow> same_type (s_claps x) (s_claps y)) xs) xs"

definition sort_reverse :: "scored list \<Rightarrow> error + scored list" where
  "sort_reverse xs =
     (if comparable xs then Inr (rev (sort_key rank_key (rev xs))) else Inl TypeError)"

text \<open>The slice \<^verbatim>\<open>xs[:n]\<close>; a negative \<open>n\<close> counts from the end.\<close>

definition slice_to :: "'a list \<Rightarrow> int \<Rightarrow> 'a list" where
  "slice_to xs n = (if 0 \<le> n then take (nat n) xs else take (length xs - nat (- n)) xs)"

definition format_result :: "scored \<Rightarrow> summary" where
  "format_result item =
     \<lparr>url = dict_get (s_article item) ''url'' (PStr []),
      title = dict_get (s_article item) ''title'' (PStr []),
      claps = dict_get (s_article item) ''claps'' (PInt 0),
      similarity_score = py_round3 (s_similarity item)\<rparr>"

text \<open>The candidates kept, in rank order, before the projection to summaries.\<close>

definition top_articles :: "string \<Rightarrow> article list \<Rightarrow> int \<Rightarrow> error + scored list" where
  "top_articles input_text articles top_n =
     (case score_articles input_text articles of
        Inl e \<Rightarrow> Inl e
      | Inr scored_articles \<Rightarrow>
          (case sort_reverse (filter (\<lambda>item. 0 < s_similarity item) scored_articles) of
             Inl e \<Rightarrow> Inl e
           | Inr similar_articles \<Rightarrow> Inr (slice_to similar_articles top_n)))"

definition find_similar_articles :: "string \<Rightarrow> article list \<Rightarrow> int \<Rightarrow> error + summary list" where
  "find_similar_articles input_text articles top_n =
     (if articles = [] then Inr []
      else case top_articles input_text articles top_n of
             Inl e \<Rightarrow> Inl e
           | Inr kept \<Rightarrow> Inr (map format_result kept))"

section \<open>The loader\<close>

text \<open>
  \<^verbatim>\<open>int(s)\<close> on a \<^verbatim>\<open>str\<close>: optional white space, an optional sign, decimal
  digits with single underscores allowed between two digits, optional white space.
  \<open>None\<close> stands for \<^verbatim>\<open>ValueError\<close>. (The interpreter's limit on the number of
  digits is not modelled.)
\<close>

definition is_int_space :: "char \<Rightarrow> bool" where
  "is_int_space c =
     (let n = code_point c in (9 \<le> n \<and> n \<le> 13) \<or> n = 32 \<or> n = 133 \<or> n = 160)"

definition is_digit :: "char \<Rightarrow> bool" where
  "is_digit c = (let n = code_point c in 48 \<le> n \<and> n \<le> 57)"

definition digit_val :: "char \<Rightarrow> nat" where
  "digit_val c = code_point c - 48"

fun digits_value :: "nat \<Rightarrow> string \<Rightarrow> nat option" where
  "digits_value acc [] = Some acc"
| "digits_value acc [c] = (if is_digit c then Some (acc * 10 + digit_val c) else None)"
| "digits_value acc (c # d # ds) =
     (if \<not> is_digit c then None
      else if d = CHR ''_''
      then (case ds of [] \<Rightarrow> None
            | e # _ \<Rightarrow> if is_digit e then digits_value (acc * 10 + digit_val c) ds else None)
      else digits_value (acc * 10 + digit_val c) (d # ds))"

definition py_int :: "string \<Rightarrow> int option" where
  "py_int s =
     (let t = rev (dropWhile is_int_space (rev (dropWhile is_int_space s)));
          neg = (case t of [] \<Rightarrow> False | c # _ \<Rightarrow> c = CHR ''-'');
          body = (case t of [] \<Rightarrow> []
                  | c # r \<Rightarrow> if c = CHR ''-'' \<or> c = CHR ''+'' then r else t)
      in if body = [] then None
         else map_option (\<lambda>n. if neg then - int n else int n) (digits_value 0 body))"

text \<open>\<^verbatim>\<open>int(x)\<close> on a value: \<^verbatim>\<open>int(None)\<close> raises \<^verbatim>\<open>TypeError\<close>.\<close>

fun int_of :: "pyval \<Rightarrow> error + int" where
  "int_of (PInt n) = Inr n"
| "int_of (PStr s) = (case py_int s of Some n \<Rightarrow> Inr n | None \<Rightarrow> Inl ValueError)"
| "int_of PNone = Inl TypeError"

text \<open>
  The body of the row loop:
  \<^verbatim>\<open>try: row['claps'] = int(row.get('claps', 0) or 0)\<close>
  \<^verbatim>\<open>except (ValueError, TypeError): row['claps'] = 0\<close>.
  \<^verbatim>\<open>int\<close> raises nothing but these two.
\<close>

definition coerce_claps :: "article \<Rightarrow> article" where
  "coerce_claps row =
     (case int_of (py_or (dict_get row ''claps'' (PInt 0)) (PInt 0)) of
        Inr n \<Rightarrow> row(''claps'' \<mapsto> PInt n)
      | Inl e \<Rightarrow> row(''claps'' \<mapsto> PInt 0))"

text \<open>
  What opening the file and iterating \<^verbatim>\<open>csv.DictReader\<close> over it does: it yields
  rows, and it may raise at any point (the file cannot be opened or decoded, a line is
  not well-formed CSV). A source is \<open>None\<close> when \<^verbatim>\<open>os.path.exists\<close> is false.
\<close>

datatype read_event = Row article | Raises string

type_synonym csv_source = "read_event list option"

text \<open>
  The \<^verbatim>\<open>for\<close> loop inside the \<^verbatim>\<open>try\<close>: the list \<open>articles\<close> is appended to in
  place, so the rows read before an exception stay in it. The result is the list and
  the exception's text, if one was raised.
\<close>

fun read_rows :: "read_event list \<Rightarrow> article list \<Rightarrow> article list \<times> string option" where
  "read_rows [] articles = (articles, None)"
| "read_rows (Row row # rest) articles = read_rows rest (articles @ [coerce_claps row])"
| "read_rows (Raises msg # rest) articles = (articles, Some msg)"

text \<open>\<^verbatim>\<open>load_articles()\<close> with what it prints.\<close>

definition load_articles_io :: "csv_source \<Rightarrow> article list \<times> string list" where
  "load_articles_io src =
     (case src of
        None \<Rightarrow> ([], [])
      | Some events \<Rightarrow>
          (case read_rows events [] of
             (articles, None) \<Rightarrow> (articles, [])
           | (articles, Some msg) \<Rightarrow> (articles, [''Error loading articles: '' @ msg])))"

definition load_articles :: "csv_source \<Rightarrow> article list" where
  "load_articles src = fst (load_articles_io src)"

section \<open>The search endpoints\<close>

datatype payload =
    ErrorBody string
  | ExceptionBody error
  | NoArticlesBody string "summary list"
  | ResultsBody string nat nat "summary list"

datatype response = Response nat payload

definition no_articles_message :: string where
  "no_articles_message =
     ''No articles found. Please ensure scrapping_results.csv exists and contains data.''"

text \<open>
  What \<^verbatim>\<open>request.get_json()\<close> gives: it raises, or returns \<^verbatim>\<open>None\<close>, a JSON
  object (its members in order, keys distinct) or another JSON value, of which only the
  truth value matters.
\<close>

datatype json_body =
    JsonRaises string
  | JsonNone
  | JsonObject "(string \<times> pyval) list"
  | JsonOther bool

text \<open>
  The part the two endpoints share, from \<^verbatim>\<open>articles = load_articles()\<close> on. An
  exception of the ranker is returned to the caller.
\<close>

definition search_loaded :: "string \<Rightarrow> csv_source \<Rightarrow> error + response" where
  "search_loaded query src =
     (let articles = load_articles src
      in if articles = [] then Inr (Response 404 (NoArticlesBody no_articles_message []))
         else case find_similar_articles query articles 10 of
                Inl e \<Rightarrow> Inl e
              | Inr results \<Rightarrow>
                  Inr (Response 200
                         (ResultsBody query (length articles) (length results) results)))"

text \<open>
  \<^verbatim>\<open>POST /search\<close>. The body is inside \<^verbatim>\<open>try ... except Exception\<close>: every
  exception becomes a 500 response. \<^verbatim>\<open>data.get\<close> on a value that is not an object
  and \<^verbatim>\<open>.strip()\<close> on a value that is not a string raise \<^verbatim>\<open>AttributeError\<close>.
\<close>

definition search_articles :: "json_body \<Rightarrow> csv_source \<Rightarrow> response" where
  "search_articles data src =
     (case data of
        JsonRaises msg \<Rightarrow> Response 500 (ExceptionBody (OtherError msg))
      | JsonNone \<Rightarrow> Response 400 (ErrorBody ''No JSON data provided'')
      | JsonOther truth \<Rightarrow>
          if \<not> truth then Response 400 (ErrorBody ''No JSON data provided'')
          else Response 500 (ExceptionBody AttributeError)
      | JsonObject members \<Rightarrow>
          if members = [] then Response 400 (ErrorBody ''No JSON data provided'')
          else (case dict_get (map_of members) ''query'' (PStr []) of
                  PStr s \<Rightarrow>
                    (let query = strip s
                     in if query = [] then Response 400 (ErrorBody ''Query parameter is required'')
                        else case search_loaded query src of
                               Inl e \<Rightarrow> Response 500 (ExceptionBody e)
                             | Inr r \<Rightarrow> r)
                | _ \<Rightarrow> Response 500 (ExceptionBody AttributeError)))"

text \<open>
  \<^verbatim>\<open>GET /search\<close>, with the value of \<^verbatim>\<open>request.args.get('q', '')\<close>. There is
  no \<^verbatim>\<open>try\<close>: an exception leaves the view function.
\<close>

definition search_articles_get :: "string \<Rightarrow> csv_source \<Rightarrow> error + response" where
  \<open>search_articles_get q src =
     (let query = strip q
      in if query = [] then Inr (Response 400 (ErrorBody ''Query parameter "q" is required''))
         else search_loaded query src)\<close>

section \<open>The scorer in the words of the specification\<close>

text \<open>
  The articles of the data model: each of the four text fields is missing or holds a
  string.
\<close>

definition text_keys :: "string list" where
  "text_keys = [''text'', ''title'', ''subtitle'', ''keywords'']"

definition str_fields :: "article \<Rightarrow> bool" where
  "str_fields a =
     list_all (\<lambda>k. case a k of None \<Rightarrow> True | Some (PStr s) \<Rightarrow> True | Some _ \<Rightarrow> False) text_keys"

text \<open>The string of a field, the empty string when the field is missing.\<close>

definition field_str :: "article \<Rightarrow> string \<Rightarrow> string" where
  "field_str a k = (case a k of Some (PStr s) \<Rightarrow> s | _ \<Rightarrow> [])"

text \<open>The concatenation of the text, title, subtitle and keywords fields.\<close>

definition article_text :: "article \<Rightarrow> string" where
  "article_text a =
     field_str a ''text'' @ '' '' @ field_str a ''title'' @ '' ''
       @ field_str a ''subtitle'' @ '' '' @ field_str a ''keywords''"

text \<open>
  The base score: the Jaccard similarity of two token sets, 0 when the query has no
  token or the union is empty.
\<close>

definition jaccard :: "string set \<Rightarrow> string set \<Rightarrow> rat" where
  "jaccard Q A =
     (if Q = {} \<or> card (Q \<union> A) = 0 then 0 else float_div (card (Q \<inter> A)) (card (Q \<union> A)))"

text \<open>
  The boost: 0.1 times the number of distinct query tokens that occur as a substring
  of the keyword text \<open>kw\<close>, when that text is not empty.
\<close>

definition keyword_boost :: "string set \<Rightarrow> string \<Rightarrow> rat" where
  "keyword_boost Q kw =
     float_mul_int (if kw \<noteq> [] then card (Set.filter (str_contains kw) Q) else 0) float_0_1"

text \<open>
  The score as the specification states it, with the boost taken on the raw keyword
  field, and the score with the boost taken on the lowercased keyword field.
\<close>

definition spec_similarity :: "string \<Rightarrow> article \<Rightarrow> rat" where
  "spec_similarity q a =
     min (float_add (jaccard (tokens q) (tokens (article_text a)))
            (keyword_boost (tokens q) (field_str a ''keywords''))) 1"

definition lowered_similarity :: "string \<Rightarrow> article \<Rightarrow> rat" where
  "lowered_similarity q a =
     min (float_add (jaccard (tokens q) (tokens (article_text a)))
            (keyword_boost (tokens q) (lower (field_str a ''keywords'')))) 1"

text \<open>
  The score before the clamp, once the query has a token: the quotient, plus the boost
  when the keyword text is not empty and some token occurs in it.
\<close>

definition boosted :: "string set \<Rightarrow> string set \<Rightarrow> string \<Rightarrow> rat" where
  "boosted Q A kw =
     (let n = card (Set.filter (\<lambda>word. str_contains kw word) Q);
          base = float_div (card (Q \<inter> A)) (card (Q \<union> A))
      in if kw \<noteq> [] \<and> 0 < n then float_add base (float_mul_int n float_0_1) else base)"

(*PROPERTIES*)

section \<open>Properties of the tokenizer\<close>

lemma alpha_word: "is_ascii_alpha c \<Longrightarrow> is_word_char c"
  by (auto simp: is_ascii_alpha_def is_word_char_def Let_def)

lemma findall_True: "findall_words True s = findall_words False (dropWhile is_word_char s)"
proof (induction s)
  case Nil
  show ?case by simp
next
  case (Cons c cs)
  show ?case
  proof (cases "is_word_char c")
    case True
    with Cons show ?thesis by simp
  next
    case False
    then have "\<not> is_ascii_alpha c" using alpha_word by blast
    with False show ?thesis by simp
  qed
qed

lemma takeWhile_alpha_word:
  "(case dropWhile is_ascii_alpha s of [] \<Rightarrow> True | d # _ \<Rightarrow> \<not> is_word_char d) \<Longrightarrow>
     takeWhile is_word_char s = takeWhile is_ascii_alpha s
     \<and> dropWhile is_word_char s = dropWhile is_ascii_alpha s"
proof (induction s)
  case Nil
  show ?case by simp
next
  case (Cons a s)
  show ?case
  proof (cases "is_ascii_alpha a")
    case True
    with Cons show ?thesis by (simp add: alpha_word)
  next
    case False
    with Cons.prems show ?thesis by simp
  qed
qed

lemma all_alpha_runs:
  "\<forall>x\<in>set (takeWhile is_word_char s). is_ascii_alpha x \<Longrightarrow>
     takeWhile is_ascii_alpha s = takeWhile is_word_char s
     \<and> dropWhile is_ascii_alpha s = dropWhile is_word_char s"
proof (induction s)
  case Nil
  show ?case by simp
next
  case (Cons a s)
  show ?case
  proof (cases "is_word_char a")
    case True
    with Cons.prems have a: "is_ascii_alpha a"
      and rest: "\<forall>x\<in>set (takeWhile is_word_char s). is_ascii_alpha x"
      by simp_all
    from Cons.IH[OF rest] True a show ?thesis by simp
  next
    case False
    then have "\<not> is_ascii_alpha a" using alpha_word by blast
    with False show ?thesis by simp
  qed
qed

lemma findall_runs:
  "findall_words False s =
     filter (\<lambda>w. 3 \<le> length w \<and> list_all is_ascii_alpha w) (runs is_word_char s)"
proof (induction is_word_char s rule: runs.induct)
  case 1 show ?case by simp
next
  case (2 c cs)
  let ?good = "\<lambda>w. 3 \<le> length w \<and> list_all is_ascii_alpha w"
  show ?case
  proof (cases "is_word_char c")
    case False
    then have "\<not> is_ascii_alpha c" using alpha_word by blast
    with False 2 show ?thesis by simp
  next
    case True
    let ?m = "3 \<le> length (takeWhile is_ascii_alpha (c # cs))
         \<and> (case dropWhile is_ascii_alpha (c # cs) of [] \<Rightarrow> True | d # _ \<Rightarrow> \<not> is_word_char d)"
    have ih: "findall_words False (dropWhile is_word_char cs)
                = filter ?good (runs is_word_char (dropWhile is_word_char cs))"
      using 2(1)[OF True] .
    show ?thesis
    proof (cases ?m)
      case m: True
      then have e: "case dropWhile is_ascii_alpha (c # cs) of [] \<Rightarrow> True | d # _ \<Rightarrow> \<not> is_word_char d"
        by blast
      have t: "takeWhile is_word_char (c # cs) = takeWhile is_ascii_alpha (c # cs)"
        and d: "dropWhile is_word_char (c # cs) = dropWhile is_ascii_alpha (c # cs)"
        using takeWhile_alpha_word[OF e] by blast+
      have g: "?good (takeWhile is_ascii_alpha (c # cs))"
        using m by (simp add: list_all_iff) (metis set_takeWhileD)
      have "findall_words False (c # cs)
              = takeWhile is_ascii_alpha (c # cs) # findall_words True (dropWhile is_ascii_alpha (c # cs))"
        using m by (subst findall_words.simps) simp
      also have "findall_words True (dropWhile is_ascii_alpha (c # cs))
                  = findall_words False (dropWhile is_word_char (dropWhile is_word_char (c # cs)))"
        by (simp only: findall_True d)
      also have "dropWhile is_word_char (dropWhile is_word_char (c # cs)) = dropWhile is_word_char cs"
        using True by (simp add: dropWhile_idem)
      finally have l: "findall_words False (c # cs)
          = takeWhile is_ascii_alpha (c # cs) # filter ?good (runs is_word_char (dropWhile is_word_char cs))"
        using ih by simp
      have "runs is_word_char (c # cs)
              = takeWhile is_ascii_alpha (c # cs) # runs is_word_char (dropWhile is_word_char cs)"
        using True t by simp
      with g l show ?thesis by simp
    next
      case nm: False
      have ng: "\<not> ?good (takeWhile is_word_char (c # cs))"
      proof
        assume g: "?good (takeWhile is_word_char (c # cs))"
        then have all: "\<forall>x\<in>set (takeWhile is_word_char (c # cs)). is_ascii_alpha x"
          by (simp add: list_all_iff)
        have eq: "takeWhile is_ascii_alpha (c # cs) = takeWhile is_word_char (c # cs)"
          and dq: "dropWhile is_ascii_alpha (c # cs) = dropWhile is_word_char (c # cs)"
          using all_alpha_runs[OF all] by blast+
        have "case dropWhile is_word_char (c # cs) of [] \<Rightarrow> True | d # _ \<Rightarrow> \<not> is_word_char d"
          by (cases "dropWhile is_word_char (c # cs)") (simp, metis hd_dropWhile list.sel(1) list.simps(5) list.distinct(1))
        with g eq dq nm show False by simp
      qed
      have "findall_words False (c # cs) = findall_words True cs"
        using nm True by (subst findall_words.simps) auto
      also have "\<dots> = filter ?good (runs is_word_char (dropWhile is_word_char cs))"
        using ih by (simp add: findall_True)
      finally show ?thesis using ng True by simp
    qed
  qed
qed

text \<open>
  Claim C3, as stated: the token set is the set of lowercased maximal alphabetic runs
  of length at least 3, whatever is adjacent to a run. The pattern's \<^verbatim>\<open>\b\<close>
  refuses a run that touches a digit or an underscore: \<^verbatim>\<open>abc123\<close> has the
  alphabetic run \<^verbatim>\<open>abc\<close> and yields no token.
\<close>

theorem tokens_alpha_runs_counterexample:
  "tokens ''abc123'' = {} \<and> spec_tokens ''abc123'' = {''abc''}"
  by code_simp

text \<open>
  Claim C3, amended: for every string, the token set is the set of the maximal runs of
  word characters (letters, digits, underscore) of the lowercased string that consist
  of ASCII letters only and are at least 3 long.
\<close>

theorem tokens_word_runs: "tokens s = word_tokens s"
  by (simp add: tokens_def word_tokens_def findall_runs)

section \<open>Properties of the floating-point operations\<close>

lemma rhe_floor: "round_half_even x = \<lfloor>x\<rfloor> \<or> round_half_even x = \<lfloor>x\<rfloor> + 1"
  by (simp add: round_half_even_def Let_def)

lemma rhe_of_int: "round_half_even (of_int n) = n"
  by (simp add: round_half_even_def Let_def)

lemma rhe_mono: "x \<le> y \<Longrightarrow> round_half_even x \<le> round_half_even y"
proof -
  assume xy: "x \<le> y"
  then have fg: "\<lfloor>x\<rfloor> \<le> \<lfloor>y\<rfloor>" by (rule floor_mono)
  show ?thesis
  proof (cases "\<lfloor>x\<rfloor> = \<lfloor>y\<rfloor>")
    case True
    with xy have "x - of_int \<lfloor>x\<rfloor> \<le> y - of_int \<lfloor>y\<rfloor>" by simp
    with True show ?thesis by (simp add: round_half_even_def Let_def)
  next
    case False
    with fg have "\<lfloor>x\<rfloor> + 1 \<le> \<lfloor>y\<rfloor>" by simp
    moreover have "round_half_even x \<le> \<lfloor>x\<rfloor> + 1" using rhe_floor[of x] by auto
    moreover have "\<lfloor>y\<rfloor> \<le> round_half_even y" using rhe_floor[of y] by auto
    ultimately show ?thesis by linarith
  qed
qed

lemma rhe_nonneg: "0 \<le> x \<Longrightarrow> 0 \<le> round_half_even x"
  using rhe_mono[of 0 x] rhe_of_int[of 0] by simp

lemma fl_zero: "fl 0 = 0"
  by (simp add: fl_def)

lemma fl_nonneg: "0 \<le> x \<Longrightarrow> 0 \<le> fl x"
proof (cases "x = 0")
  case True
  then show ?thesis by (simp add: fl_def)
next
  case False
  assume "0 \<le> x"
  with False have pos: "0 < x" by simp
  let ?e = "ilog2 \<bar>x\<bar>"
  have "0 \<le> \<bar>x\<bar> * 2 powi (52 - ?e)" by simp
  then have "0 \<le> round_half_even (\<bar>x\<bar> * 2 powi (52 - ?e))" by (rule rhe_nonneg)
  then have "0 \<le> (of_int (round_half_even (\<bar>x\<bar> * 2 powi (52 - ?e))) :: rat) * 2 powi (?e - 52)"
    by simp
  with pos show ?thesis by (simp add: fl_def Let_def)
qed

lemma ilog2_bounds:
  assumes "0 < x"
  shows "2 powi (ilog2 x) \<le> x \<and> x < 2 powi (ilog2 x + 1)"
proof -
  obtain p q where pq: "quotient_of x = (p, q)" by (cases "quotient_of x")
  then have q: "0 < q" by (rule quotient_of_denom_pos)
  have x: "x = of_int p / of_int q" using pq by (rule quotient_of_div)
  with assms q have p: "0 < p" by (simp add: zero_less_divide_iff)
  let ?bp = "bitlen p" and ?bq = "bitlen q"
  have bp1: "1 \<le> ?bp" using p bitlen_nonneg[of p] bitlen_eq_zero_iff[of p] by linarith
  have bq1: "1 \<le> ?bq" using q bitlen_nonneg[of q] bitlen_eq_zero_iff[of q] by linarith
  have pb: "(2::int) ^ nat (?bp - 1) \<le> p \<and> p < 2 ^ nat ?bp" using bitlen_bounds[OF p] .
  have qb: "(2::int) ^ nat (?bq - 1) \<le> q \<and> q < 2 ^ nat ?bq" using bitlen_bounds[OF q] .
  have pl: "(2::rat) powi (?bp - 1) \<le> of_int p"
  proof -
    have "(of_int ((2::int) ^ nat (?bp - 1)) :: rat) \<le> of_int p" using pb by (simp only: of_int_le_iff)
    then show ?thesis using bp1 by (simp add: power_int_def)
  qed
  have pu: "(of_int p :: rat) < 2 powi ?bp"
  proof -
    have "(of_int p :: rat) < of_int ((2::int) ^ nat ?bp)" using pb by (simp only: of_int_less_iff)
    then show ?thesis using bp1 by (simp add: power_int_def)
  qed
  have ql: "(2::rat) powi (?bq - 1) \<le> of_int q"
  proof -
    have "(of_int ((2::int) ^ nat (?bq - 1)) :: rat) \<le> of_int q" using qb by (simp only: of_int_le_iff)
    then show ?thesis using bq1 by (simp add: power_int_def)
  qed
  have qu: "(of_int q :: rat) < 2 powi ?bq"
  proof -
    have "(of_int q :: rat) < of_int ((2::int) ^ nat ?bq)" using qb by (simp only: of_int_less_iff)
    then show ?thesis using bq1 by (simp add: power_int_def)
  qed
  have qpos: "(0::rat) < of_int q" using q by simp
  have upper: "x < 2 powi (?bp - ?bq + 1)"
  proof -
    have "of_int p < (2::rat) powi ?bp" by (rule pu)
    also have "\<dots> = 2 powi (?bp - ?bq + 1) * 2 powi (?bq - 1)"
      by (simp flip: power_int_add)
    also have "\<dots> \<le> 2 powi (?bp - ?bq + 1) * of_int q"
      using ql by (intro mult_left_mono) simp_all
    finally show ?thesis using qpos by (simp add: x pos_divide_less_eq)
  qed
  have lower: "2 powi (?bp - ?bq - 1) < x"
  proof -
    have "2 powi (?bp - ?bq - 1) * of_int q < (2::rat) powi (?bp - ?bq - 1) * 2 powi ?bq"
      using qu by (intro mult_strict_left_mono) simp_all
    also have "\<dots> = 2 powi (?bp - 1)" by (simp flip: power_int_add)
    also have "\<dots> \<le> of_int p" by (rule pl)
    finally show ?thesis using qpos by (simp add: x pos_less_divide_eq)
  qed
  show ?thesis
  proof (cases "2 powi (?bp - ?bq) \<le> x")
    case True
    then have "ilog2 x = ?bp - ?bq" using pq by (simp add: ilog2_def)
    with True upper show ?thesis by simp
  next
    case False
    then have e: "ilog2 x = ?bp - ?bq - 1" using pq by (simp add: ilog2_def)
    from False have "x < 2 powi (?bp - ?bq)" by simp
    with lower e show ?thesis by simp
  qed
qed

lemma powi_mult: "(2::rat) powi a * 2 powi b = 2 powi (a + b)"
  by (simp add: power_int_add)

lemma ilog2_unique:
  assumes "0 < x" and lo: "2 powi e \<le> x" and hi: "x < 2 powi (e + 1)"
  shows "ilog2 x = e"
proof -
  let ?k = "ilog2 x"
  have k: "2 powi ?k \<le> x \<and> x < 2 powi (?k + 1)" using ilog2_bounds[OF assms(1)] .
  have "?k < e + 1"
  proof (rule ccontr)
    assume "\<not> ?k < e + 1"
    then have "e + 1 \<le> ?k" by simp
    then have "(2::rat) powi (e + 1) \<le> 2 powi ?k" by (intro power_int_increasing) simp_all
    with k hi show False by linarith
  qed
  moreover have "e < ?k + 1"
  proof (rule ccontr)
    assume "\<not> e < ?k + 1"
    then have "?k + 1 \<le> e" by simp
    then have "(2::rat) powi (?k + 1) \<le> 2 powi e" by (intro power_int_increasing) simp_all
    with k lo show False by linarith
  qed
  ultimately show ?thesis by linarith
qed

lemma fl_pos_eq:
  "0 < x \<Longrightarrow>
     fl x = of_int (round_half_even (x * 2 powi (52 - ilog2 x))) * 2 powi (ilog2 x - 52)"
  by (simp add: fl_def Let_def)

lemma mantissa_bounds:
  assumes "0 < x"
  shows "2 ^ 52 \<le> round_half_even (x * 2 powi (52 - ilog2 x))
         \<and> round_half_even (x * 2 powi (52 - ilog2 x)) \<le> 2 ^ 53"
proof -
  let ?e = "ilog2 x"
  have b: "2 powi ?e \<le> x \<and> x < 2 powi (?e + 1)" using ilog2_bounds[OF assms] .
  have "(2::rat) powi 52 = 2 powi ?e * 2 powi (52 - ?e)" using powi_mult[of ?e "52 - ?e"] by simp
  also have "\<dots> \<le> x * 2 powi (52 - ?e)" using b by (intro mult_right_mono) simp_all
  finally have "round_half_even (2 powi 52) \<le> round_half_even (x * 2 powi (52 - ?e))"
    by (rule rhe_mono)
  moreover have "(2::rat) powi 52 = of_int (2 ^ 52)" by simp
  ultimately have lo: "2 ^ 52 \<le> round_half_even (x * 2 powi (52 - ?e))"
    by (simp only: rhe_of_int)
  have "x * 2 powi (52 - ?e) \<le> 2 powi (?e + 1) * 2 powi (52 - ?e)"
    using b by (intro mult_right_mono) simp_all
  also have "\<dots> = (2::rat) powi 53" using powi_mult[of "?e + 1" "52 - ?e"] by simp
  finally have "round_half_even (x * 2 powi (52 - ?e)) \<le> round_half_even (2 powi 53)"
    by (rule rhe_mono)
  moreover have "(2::rat) powi 53 = of_int (2 ^ 53)" by simp
  ultimately have hi: "round_half_even (x * 2 powi (52 - ?e)) \<le> 2 ^ 53"
    by (simp only: rhe_of_int)
  from lo hi show ?thesis by simp
qed

lemma fl_range:
  assumes "0 < x"
  shows "2 powi (ilog2 x) \<le> fl x \<and> fl x \<le> 2 powi (ilog2 x + 1)"
proof -
  let ?e = "ilog2 x"
  let ?m = "round_half_even (x * 2 powi (52 - ?e))"
  have m: "2 ^ 52 \<le> ?m \<and> ?m \<le> 2 ^ 53" using mantissa_bounds[OF assms] .
  have mlo: "(2::rat) powi 52 \<le> of_int ?m"
  proof -
    have "(of_int (2 ^ 52) :: rat) \<le> of_int ?m" using m by (simp only: of_int_le_iff)
    then show ?thesis by simp
  qed
  have mhi: "(of_int ?m :: rat) \<le> 2 powi 53"
  proof -
    have "(of_int ?m :: rat) \<le> of_int (2 ^ 53)" using m by (simp only: of_int_le_iff)
    then show ?thesis by simp
  qed
  have "(2::rat) powi ?e = 2 powi 52 * 2 powi (?e - 52)" using powi_mult[of 52 "?e - 52"] by simp
  also have "\<dots> \<le> of_int ?m * 2 powi (?e - 52)" using mlo by (intro mult_right_mono) simp_all
  finally have lo: "2 powi ?e \<le> fl x" by (simp only: fl_pos_eq[OF assms])
  have "of_int ?m * 2 powi (?e - 52) \<le> (2::rat) powi 53 * 2 powi (?e - 52)"
    using mhi by (intro mult_right_mono) simp_all
  also have "\<dots> = 2 powi (?e + 1)" using powi_mult[of 53 "?e - 52"] by (simp add: add.commute)
  finally have hi: "fl x \<le> 2 powi (?e + 1)" by (simp only: fl_pos_eq[OF assms])
  from lo hi show ?thesis by simp
qed

lemma fl_pos: "0 < x \<Longrightarrow> 0 < fl x"
proof -
  assume x: "0 < x"
  have "(0::rat) < 2 powi (ilog2 x)" by simp
  also have "\<dots> \<le> fl x" using fl_range[OF x] by simp
  finally show ?thesis .
qed

lemma fl_representable:
  assumes m: "2 ^ 52 \<le> m" "m < 2 ^ 53"
  shows "fl (of_int m * 2 powi (e - 52)) = of_int m * 2 powi (e - 52)"
proof -
  let ?y = "(of_int m :: rat) * 2 powi (e - 52)"
  have mlo: "(2::rat) powi 52 \<le> of_int m"
  proof -
    have "(of_int (2 ^ 52) :: rat) \<le> of_int m" using m by (simp only: of_int_le_iff)
    then show ?thesis by simp
  qed
  have mhi: "(of_int m :: rat) < 2 powi 53"
  proof -
    have "(of_int m :: rat) < of_int (2 ^ 53)" using m by (simp only: of_int_less_iff)
    then show ?thesis by simp
  qed
  have mpos: "(0::rat) < of_int m" using mlo by (rule less_le_trans[rotated]) simp
  then have ypos: "0 < ?y" by simp
  have "(2::rat) powi e = 2 powi 52 * 2 powi (e - 52)" using powi_mult[of 52 "e - 52"] by simp
  also have "\<dots> \<le> ?y" using mlo by (intro mult_right_mono) simp_all
  finally have lo: "2 powi e \<le> ?y" .
  have "?y < 2 powi 53 * 2 powi (e - 52)" using mhi by (intro mult_strict_right_mono) simp_all
  also have "\<dots> = 2 powi (e + 1)" using powi_mult[of 53 "e - 52"] by (simp add: add.commute)
  finally have hi: "?y < 2 powi (e + 1)" .
  have e: "ilog2 ?y = e" using ypos lo hi by (rule ilog2_unique)
  have "?y * 2 powi (52 - e) = of_int m * (2 powi (e - 52) * 2 powi (52 - e))" by simp
  also have "\<dots> = of_int m" using powi_mult[of "e - 52" "52 - e"] by simp
  finally have "round_half_even (?y * 2 powi (52 - e)) = m" by (simp only: rhe_of_int)
  then show ?thesis using fl_pos_eq[OF ypos] e by simp
qed

lemma fl_idem: "0 \<le> x \<Longrightarrow> fl (fl x) = fl x"
proof (cases "x = 0")
  case True
  then show ?thesis by (simp add: fl_zero)
next
  case False
  assume "0 \<le> x"
  with False have x: "0 < x" by simp
  let ?e = "ilog2 x"
  let ?m = "round_half_even (x * 2 powi (52 - ?e))"
  have m: "2 ^ 52 \<le> ?m \<and> ?m \<le> 2 ^ 53" using mantissa_bounds[OF x] .
  have eq: "fl x = of_int ?m * 2 powi (?e - 52)" using fl_pos_eq[OF x] .
  show ?thesis
  proof (cases "?m < 2 ^ 53")
    case True
    with m show ?thesis using fl_representable[of ?m ?e] eq by simp
  next
    case False
    with m have m53: "?m = 2 ^ 53" by simp
    have "fl x = 2 powi 53 * 2 powi (?e - 52)" by (simp add: eq m53)
    also have "\<dots> = 2 powi 52 * 2 powi ((?e + 1) - 52)"
      using powi_mult[of 53 "?e - 52"] powi_mult[of 52 "(?e + 1) - 52"] by simp
    finally have "fl x = of_int (2 ^ 52) * 2 powi ((?e + 1) - 52)" by simp
    then show ?thesis using fl_representable[of "2 ^ 52" "?e + 1"] by simp
  qed
qed

lemma fl_mono:
  assumes "0 \<le> x" and "x \<le> y"
  shows "fl x \<le> fl y"
proof (cases "x = 0")
  case True
  with assms show ?thesis by (simp add: fl_zero fl_nonneg)
next
  case False
  with assms have x: "0 < x" and y: "0 < y" by simp_all
  let ?e = "ilog2 x" and ?f = "ilog2 y"
  have bdx: "2 powi ?e \<le> x \<and> x < 2 powi (?e + 1)" using ilog2_bounds[OF x] .
  have bdy: "2 powi ?f \<le> y \<and> y < 2 powi (?f + 1)" using ilog2_bounds[OF y] .
  have ef: "?e \<le> ?f"
  proof (rule ccontr)
    assume "\<not> ?e \<le> ?f"
    then have "?f + 1 \<le> ?e" by simp
    then have "(2::rat) powi (?f + 1) \<le> 2 powi ?e" by (intro power_int_increasing) simp_all
    with bdx bdy assms show False by linarith
  qed
  show ?thesis
  proof (cases "?e = ?f")
    case True
    have "x * 2 powi (52 - ?e) \<le> y * 2 powi (52 - ?e)"
      using assms by (intro mult_right_mono) simp_all
    then have "round_half_even (x * 2 powi (52 - ?e)) \<le> round_half_even (y * 2 powi (52 - ?e))"
      by (rule rhe_mono)
    then have "(of_int (round_half_even (x * 2 powi (52 - ?e))) :: rat) * 2 powi (?e - 52)
                 \<le> of_int (round_half_even (y * 2 powi (52 - ?e))) * 2 powi (?e - 52)"
      by (intro mult_right_mono) simp_all
    then show ?thesis using fl_pos_eq[OF x] fl_pos_eq[OF y] True by simp
  next
    case False
    with ef have "?e + 1 \<le> ?f" by simp
    then have "(2::rat) powi (?e + 1) \<le> 2 powi ?f" by (intro power_int_increasing) simp_all
    moreover have "fl x \<le> 2 powi (?e + 1)" using fl_range[OF x] by simp
    moreover have "2 powi ?f \<le> fl y" using fl_range[OF y] by simp
    ultimately show ?thesis by linarith
  qed
qed

lemma py_round3_mono:
  assumes "0 \<le> x" and "x \<le> y"
  shows "py_round3 x \<le> py_round3 y"
proof -
  have "round_half_even (x * 1000) \<le> round_half_even (y * 1000)"
    using assms by (intro rhe_mono) simp
  then have le: "(of_int (round_half_even (x * 1000)) :: rat) / 1000
                   \<le> of_int (round_half_even (y * 1000)) / 1000"
    by (simp add: divide_right_mono)
  have "0 \<le> round_half_even (x * 1000)" using assms by (intro rhe_nonneg) simp
  then have "(0::rat) \<le> of_int (round_half_even (x * 1000)) / 1000" by simp
  then show ?thesis unfolding py_round3_def using le by (rule fl_mono)
qed

section \<open>Properties of the scorer\<close>

lemma str_operand_ok:
  "str_fields a \<Longrightarrow> k \<in> set text_keys \<Longrightarrow> str_operand a k = Inr (field_str a k)"
  by (auto simp: str_fields_def list_all_iff str_operand_def field_str_def dict_get_def
           split: option.splits pyval.splits)

lemma concat_fields_ok: "str_fields a \<Longrightarrow> concat_fields a = Inr (article_text a)"
  by (simp add: concat_fields_def article_text_def str_operand_ok text_keys_def)

lemma float_div_nonneg: "0 \<le> float_div a b"
  unfolding float_div_def by (rule fl_nonneg) simp

lemma float_mul_int_nonneg: "0 \<le> x \<Longrightarrow> 0 \<le> float_mul_int k x"
  unfolding float_mul_int_def by (intro fl_nonneg mult_nonneg_nonneg) simp_all

lemma float_0_1_nonneg: "0 \<le> float_0_1"
  unfolding float_0_1_def by (rule fl_nonneg) simp

lemma float_add_nonneg: "0 \<le> x \<Longrightarrow> 0 \<le> y \<Longrightarrow> 0 \<le> float_add x y"
  unfolding float_add_def by (rule fl_nonneg) simp

lemma calculate_similarity_eq:
  assumes "concat_fields a = Inr raw" and "str_operand a ''keywords'' = Inr k"
  shows "calculate_similarity q kw a =
           Inr (if set (findall_words False (lower q)) = {} then 0
                else if card (set (findall_words False (lower q))
                               \<union> set (findall_words False (lower raw))) = 0 then 0
                else min (boosted (set (findall_words False (lower q)))
                            (set (findall_words False (lower raw))) (lower k)) 1)"
  using assms by (simp add: calculate_similarity_def Let_def float_1_0_def boosted_def)

lemma boosted_nonneg: "0 \<le> boosted Q A kw"
  by (simp add: boosted_def Let_def float_div_nonneg float_add_nonneg float_mul_int_nonneg
        float_0_1_nonneg)

lemma calculate_similarity_cases:
  assumes "calculate_similarity q kw a = Inr s"
  shows "0 \<le> s \<and> s \<le> 1"
proof -
  from assms obtain raw where raw: "concat_fields a = Inr raw"
    by (cases "concat_fields a") (simp_all add: calculate_similarity_def Let_def)
  from assms raw obtain k where k: "str_operand a ''keywords'' = Inr k"
    by (cases "str_operand a ''keywords''") (simp_all add: calculate_similarity_def Let_def)
  let ?Q = "set (findall_words False (lower q))"
  let ?A = "set (findall_words False (lower raw))"
  have "s = (if ?Q = {} then 0 else if card (?Q \<union> ?A) = 0 then 0
             else min (boosted ?Q ?A (lower k)) 1)"
    using assms calculate_similarity_eq[OF raw k, of q kw] by simp
  moreover have "0 \<le> min (boosted ?Q ?A (lower k)) 1"
    using boosted_nonneg[of ?Q ?A "lower k"] by simp
  ultimately show ?thesis by (simp split: if_splits)
qed

text \<open>
  Claim C2: for every query string and every article record, the similarity score
  returned by \<^verbatim>\<open>calculate_similarity\<close> lies in the closed interval [0, 1]; and a
  score is returned for every record whose text fields are missing or strings.
\<close>

theorem similarity_in_unit_interval:
  "(str_fields a \<longrightarrow> (\<exists>s. calculate_similarity q kw a = Inr s))
   \<and> (\<forall>s. calculate_similarity q kw a = Inr s \<longrightarrow> 0 \<le> s \<and> s \<le> 1)"
proof
  show "str_fields a \<longrightarrow> (\<exists>s. calculate_similarity q kw a = Inr s)"
  proof
    assume sf: "str_fields a"
    have "str_operand a ''keywords'' = Inr (field_str a ''keywords'')"
      using sf by (rule str_operand_ok) (simp add: text_keys_def)
    then show "\<exists>s. calculate_similarity q kw a = Inr s"
      using concat_fields_ok[OF sf] by (simp add: calculate_similarity_def Let_def)
  qed
next
  show "\<forall>s. calculate_similarity q kw a = Inr s \<longrightarrow> 0 \<le> s \<and> s \<le> 1"
    using calculate_similarity_cases by blast
qed

theorem similarity_in_unit_interval_witness:
  "str_fields [''text'' \<mapsto> PStr ''deep learning'']
   \<and> calculate_similarity ''learning'' PNone [''text'' \<mapsto> PStr ''deep learning''] = Inr (1 / 2)
   \<and> (0::rat) \<le> 1 / 2 \<and> (1 / 2 :: rat) \<le> 1"
proof -
  have sf: "str_fields [''text'' \<mapsto> PStr ''deep learning'']"
    by (simp add: str_fields_def text_keys_def)
  have e: "calculate_similarity ''learning'' PNone [''text'' \<mapsto> PStr ''deep learning'']
             = Inr (1 / 2)"
    by code_simp
  from similarity_in_unit_interval[of "[''text'' \<mapsto> PStr ''deep learning'']" "''learning''" PNone]
  have "(0::rat) \<le> 1 / 2 \<and> (1 / 2 :: rat) \<le> 1" using e by blast
  with sf e show ?thesis by blast
qed

lemma float_mul_int_zero: "float_mul_int 0 x = 0"
  by (simp add: float_mul_int_def fl_zero)

lemma float_add_zero: "float_add (float_div a b) 0 = float_div a b"
proof -
  have "fl (fl (of_nat a / of_nat b)) = fl (of_nat a / of_nat b)"
    by (rule fl_idem) simp
  then show ?thesis by (simp add: float_add_def float_div_def)
qed

lemma float_add_zero_zero: "float_add 0 0 = 0"
  by (simp add: float_add_def fl_zero)

lemma boosted_formula:
  assumes "Q \<noteq> {}" and "finite Q" and "finite A"
  shows "boosted Q A kw = float_add (jaccard Q A) (keyword_boost Q kw)"
proof -
  let ?n = "card (Set.filter (\<lambda>word. str_contains kw word) Q)"
  let ?base = "float_div (card (Q \<inter> A)) (card (Q \<union> A))"
  from assms have "card (Q \<union> A) \<noteq> 0" by simp
  with assms have j: "jaccard Q A = ?base" by (simp add: jaccard_def)
  show ?thesis
  proof (cases "kw \<noteq> [] \<and> 0 < ?n")
    case True
    then show ?thesis by (simp add: boosted_def keyword_boost_def j Let_def)
  next
    case False
    then have "(if kw \<noteq> [] then ?n else 0) = 0" by auto
    then have "keyword_boost Q kw = 0" by (simp add: keyword_boost_def float_mul_int_zero)
    moreover have "boosted Q A kw = ?base"
    proof -
      have "boosted Q A kw =
              (if kw \<noteq> [] \<and> 0 < ?n then float_add ?base (float_mul_int ?n float_0_1) else ?base)"
        by (simp add: boosted_def Let_def)
      also have "\<dots> = ?base" using False by (rule if_not_P)
      finally show ?thesis .
    qed
    ultimately show ?thesis by (simp add: j float_add_zero)
  qed
qed

text \<open>
  Claim C1, amended: for every query string and every article record whose text fields
  are missing or strings, the score computed by \<^verbatim>\<open>calculate_similarity\<close> equals
  \<open>min (base + boost) 1\<close> in float arithmetic, where \<open>base\<close> is the Jaccard similarity
  of the token sets of the query and of the concatenated text, title, subtitle and
  keywords fields (0 when the query has no token or the union is empty), and \<open>boost\<close> is
  0.1 times the number of distinct query tokens that occur as a substring of the
  lowercased keyword field, when that field is not empty.
\<close>

theorem similarity_formula:
  assumes "str_fields a"
  shows "calculate_similarity q kw a = Inr (lowered_similarity q a)"
proof -
  have raw: "concat_fields a = Inr (article_text a)" using assms by (rule concat_fields_ok)
  have k: "str_operand a ''keywords'' = Inr (field_str a ''keywords'')"
    using assms by (rule str_operand_ok) (simp add: text_keys_def)
  let ?Q = "tokens q" and ?A = "tokens (article_text a)"
  let ?kw = "lower (field_str a ''keywords'')"
  have fin: "finite ?Q" "finite ?A" by (simp_all add: tokens_def)
  have eq: "calculate_similarity q kw a =
          Inr (if ?Q = {} then 0 else if card (?Q \<union> ?A) = 0 then 0 else min (boosted ?Q ?A ?kw) 1)"
    using calculate_similarity_eq[OF raw k, of q kw] by (simp add: tokens_def)
  show ?thesis
  proof (cases "?Q = {}")
    case True
    then have "jaccard ?Q ?A = 0" and "keyword_boost ?Q ?kw = 0"
      by (simp_all add: jaccard_def keyword_boost_def float_mul_int_zero)
    then have "lowered_similarity q a = 0"
      by (simp add: lowered_similarity_def float_add_zero_zero)
    with True eq show ?thesis by simp
  next
    case False
    with fin have "card (?Q \<union> ?A) \<noteq> 0" by simp
    moreover have "boosted ?Q ?A ?kw = float_add (jaccard ?Q ?A) (keyword_boost ?Q ?kw)"
      using False fin by (rule boosted_formula)
    ultimately show ?thesis using False eq by (simp add: lowered_similarity_def)
  qed
qed

theorem similarity_formula_witness:
  "str_fields [''keywords'' \<mapsto> PStr ''Machine'']
   \<and> calculate_similarity ''machine learning'' PNone [''keywords'' \<mapsto> PStr ''Machine'']
       = Inr (lowered_similarity ''machine learning'' [''keywords'' \<mapsto> PStr ''Machine''])"
proof -
  have sf: "str_fields [''keywords'' \<mapsto> PStr ''Machine'']"
    by (simp add: str_fields_def text_keys_def)
  from similarity_formula[OF sf] sf show ?thesis by blast
qed

text \<open>
  Claim C1, as stated, takes the boost on the raw keyword field. The code lowercases the
  field first: for the query \<^verbatim>\<open>machine learning\<close> and the keywords
  \<^verbatim>\<open>Machine\<close> the code returns 0.6 (the float nearest to it), the stated formula 0.5.
\<close>

theorem similarity_raw_keywords_counterexample:
  "calculate_similarity ''machine learning'' PNone [''keywords'' \<mapsto> PStr ''Machine'']
     = Inr (5404319552844595 / 9007199254740992)
   \<and> spec_similarity ''machine learning'' [''keywords'' \<mapsto> PStr ''Machine''] = 1 / 2"
  by code_simp

end
